theory Spec2Isabelle
  imports Complex_Main "HOL-Library.AList" "HOL-Library.Monad_Syntax"
begin

section \<open>Stored values\<close>

text \<open>
  The extension keeps its settings under the key \<open>settings\<close> of \<open>chrome.storage.sync\<close>.
  The storage area holds JSON-serialisable values only, so a stored value, and a value
  delivered by a change notification, is a JSON value; a key that is not set reads as
  \<open>undefined\<close>, modelled as \<open>None\<close>. Numbers are the finite numbers JSON can hold, taken
  here as rationals. An object is the list of its own properties; only look-ups by key are
  ever made on it, so the enumeration order of properties plays no role.
\<close>

datatype json =
    JNull
  | JBool bool
  | JNum rat
  | JStr string
  | JArr "json list"
  | JObj "(string \<times> json) list"

text \<open>Decimal rendering of an array index or a count, as a template literal prints it.\<close>

fun string_of_nat :: "nat \<Rightarrow> string" where
  "string_of_nat n =
     (if n < 10 then [char_of (48 + n)]
      else string_of_nat (n div 10) @ [char_of (48 + n mod 10)])"

declare string_of_nat.simps [simp del]

text \<open>
  The own enumerable properties that an object spread \<open>{...v}\<close> copies, for the values
  that pass the test \<open>v && typeof v === "object"\<close>: objects and arrays (whose properties
  are their indices). \<open>null\<close> is falsy; booleans, numbers and strings are not objects.
\<close>

fun spreadable :: "json option \<Rightarrow> (string \<times> json) list option" where
  "spreadable (Some (JObj kvs)) = Some kvs"
| "spreadable (Some (JArr xs)) = Some (zip (map string_of_nat [0..<length xs]) xs)"
| "spreadable _ = None"

text \<open>\<open>{...a, ...b}\<close>: the properties of \<open>a\<close>, overwritten and extended by those of \<open>b\<close>.\<close>

definition spread :: "(string \<times> json) list \<Rightarrow> (string \<times> json) list \<Rightarrow> (string \<times> json) list" where
  "spread a b = AList.merge a b"

section \<open>The settings schema\<close>

datatype theme = Light | Dark | System

record settings =
  apiKey :: string
  apiKeyId :: "string option"
  address :: string
  autoSave :: bool
  closeTabsOnBulkSave :: "bool option"
  theme :: theme
  showCountBadge :: bool
  useBadgeCache :: bool
  badgeCacheExpireMs :: rat
  customHeaders :: "(string \<times> string) list"

definition DEFAULT_BADGE_CACHE_EXPIRE_MS :: rat where
  "DEFAULT_BADGE_CACHE_EXPIRE_MS = 60 * 60 * 1000"

definition DEFAULT_SHOW_COUNT_BADGE :: bool where
  "DEFAULT_SHOW_COUNT_BADGE = False"

text \<open>
  The validators of the schema. Each takes the value found under a key (\<open>None\<close> when the
  key is absent) and returns the parsed value, or \<open>None\<close> when validation fails.
\<close>

fun z_string :: "json option \<Rightarrow> string option" where
  "z_string (Some (JStr s)) = Some s"
| "z_string _ = None"

fun z_boolean :: "json option \<Rightarrow> bool option" where
  "z_boolean (Some (JBool b)) = Some b"
| "z_boolean _ = None"

text \<open>\<open>z.number().min(0)\<close>\<close>

fun z_number_min0 :: "json option \<Rightarrow> rat option" where
  "z_number_min0 (Some (JNum x)) = (if 0 \<le> x then Some x else None)"
| "z_number_min0 _ = None"

text \<open>\<open>z.enum(["light", "dark", "system"])\<close>\<close>

fun z_enum_theme :: "json option \<Rightarrow> theme option" where
  "z_enum_theme (Some (JStr s)) =
     (if s = ''light'' then Some Light
      else if s = ''dark'' then Some Dark
      else if s = ''system'' then Some System
      else None)"
| "z_enum_theme _ = None"

text \<open>\<open>z.record(z.string(), z.string())\<close>: an object all of whose values are strings.\<close>

fun z_record_string :: "json option \<Rightarrow> (string \<times> string) list option" where
  "z_record_string (Some (JObj kvs)) =
     those (map (\<lambda>(k, v). map_option (Pair k) (z_string (Some v))) kvs)"
| "z_record_string _ = None"

text \<open>\<open>.optional()\<close>: an absent value is accepted and stays absent.\<close>

definition z_optional :: "(json option \<Rightarrow> 'a option) \<Rightarrow> json option \<Rightarrow> 'a option option" where
  "z_optional p v = (case v of None \<Rightarrow> Some None | Some _ \<Rightarrow> map_option Some (p v))"

text \<open>
  \<open>.default(d)\<close>: an absent value is replaced by the default, anything else goes to the
  inner validator. \<open>.optional().default(d)\<close> behaves the same way, since the inner
  \<open>.optional()\<close> then never sees an absent value.
\<close>

definition z_default :: "(json option \<Rightarrow> 'a option) \<Rightarrow> 'a \<Rightarrow> json option \<Rightarrow> 'a option" where
  "z_default p d v = (case v of None \<Rightarrow> Some d | Some _ \<Rightarrow> p v)"

text \<open>
  \<open>zSettingsSchema.safeParse\<close>: \<open>Some\<close> of the parsed data on success, \<open>None\<close> on failure.
  Only objects are accepted; keys outside the schema are dropped.
\<close>

fun zSettingsSchema_safeParse :: "json option \<Rightarrow> settings option" where
  "zSettingsSchema_safeParse (Some (JObj kvs)) =
     do {
       a \<leftarrow> z_string (map_of kvs ''apiKey'');
       i \<leftarrow> z_optional z_string (map_of kvs ''apiKeyId'');
       d \<leftarrow> z_default z_string ''https://cloud.karakeep.app'' (map_of kvs ''address'');
       s \<leftarrow> z_default z_boolean False (map_of kvs ''autoSave'');
       c \<leftarrow> z_optional z_boolean (map_of kvs ''closeTabsOnBulkSave'');
       t \<leftarrow> z_default z_enum_theme System (map_of kvs ''theme'');
       b \<leftarrow> z_default z_boolean DEFAULT_SHOW_COUNT_BADGE (map_of kvs ''showCountBadge'');
       u \<leftarrow> z_default z_boolean True (map_of kvs ''useBadgeCache'');
       e \<leftarrow> z_default z_number_min0 DEFAULT_BADGE_CACHE_EXPIRE_MS (map_of kvs ''badgeCacheExpireMs'');
       h \<leftarrow> z_default z_record_string [] (map_of kvs ''customHeaders'');
       Some \<lparr> apiKey = a, apiKeyId = i, address = d, autoSave = s,
              closeTabsOnBulkSave = c, theme = t, showCountBadge = b, useBadgeCache = u,
              badgeCacheExpireMs = e, customHeaders = h \<rparr>
     }"
| "zSettingsSchema_safeParse _ = None"

definition DEFAULT_SETTINGS :: settings where
  "DEFAULT_SETTINGS =
     \<lparr> apiKey = '''', apiKeyId = None, address = ''https://cloud.karakeep.app'',
       autoSave = False, closeTabsOnBulkSave = Some False, theme = System,
       showCountBadge = DEFAULT_SHOW_COUNT_BADGE, useBadgeCache = True,
       badgeCacheExpireMs = DEFAULT_BADGE_CACHE_EXPIRE_MS, customHeaders = [] \<rparr>"

text \<open>
  The properties of a settings object, which is what a spread copies and what
  \<open>STORAGE.set\<close> serialises. An optional field that is undefined is no property.
\<close>

definition opt_entry :: "string \<Rightarrow> json option \<Rightarrow> (string \<times> json) list" where
  "opt_entry k v = (case v of None \<Rightarrow> [] | Some j \<Rightarrow> [(k, j)])"

fun theme_name :: "theme \<Rightarrow> string" where
  "theme_name Light = ''light''"
| "theme_name Dark = ''dark''"
| "theme_name System = ''system''"

definition settings_entries :: "settings \<Rightarrow> (string \<times> json) list" where
  "settings_entries s =
     [(''apiKey'', JStr (apiKey s))]
     @ opt_entry ''apiKeyId'' (map_option JStr (apiKeyId s))
     @ [(''address'', JStr (address s)),
        (''autoSave'', JBool (autoSave s))]
     @ opt_entry ''closeTabsOnBulkSave'' (map_option JBool (closeTabsOnBulkSave s))
     @ [(''theme'', JStr (theme_name (theme s))),
        (''showCountBadge'', JBool (showCountBadge s)),
        (''useBadgeCache'', JBool (useBadgeCache s)),
        (''badgeCacheExpireMs'', JNum (badgeCacheExpireMs s)),
        (''customHeaders'', JObj (map (\<lambda>(k, v). (k, JStr v)) (customHeaders s)))]"

definition settings_to_json :: "settings \<Rightarrow> json" where
  "settings_to_json s = JObj (settings_entries s)"

text \<open>
  A settings object is fully defaulted when it has every property of the default record.
\<close>

definition populated :: "string \<Rightarrow> settings \<Rightarrow> bool" where
  "populated k s = (map_of (settings_entries s) k \<noteq> None)"

definition defaultable_fields :: "string list" where
  "defaultable_fields = map fst (settings_entries DEFAULT_SETTINGS)"

definition fully_defaulted :: "settings \<Rightarrow> bool" where
  "fully_defaulted s = list_all (\<lambda>k. populated k s) defaultable_fields"

section \<open>The settings store\<close>

text \<open>
  \<open>STORAGE\<close> is the storage area: the value under the key \<open>settings\<close>, and the log of
  the values written by \<open>STORAGE.set\<close>, oldest first. \<open>STORAGE_get\<close> and \<open>STORAGE_set\<close> are the
  two calls as the browser carries them out; a call that the browser refuses is treated
  further down, with \<open>getPluginSettings_await\<close>.
\<close>

record storage =
  stored :: "json option"
  writes :: "json list"

definition STORAGE_get :: "storage \<Rightarrow> json option" where
  "STORAGE_get st = stored st"

definition STORAGE_set :: "json \<Rightarrow> storage \<Rightarrow> storage" where
  "STORAGE_set v st = st\<lparr> stored := Some v, writes := writes st @ [v] \<rparr>"

text \<open>
  \<open>getPluginSettings\<close>. In the branch that builds \<open>enriched\<close> the parsed data has no
  property \<open>closeTabsOnBulkSave\<close>, so the spread \<open>{closeTabsOnBulkSave: false, ...data}\<close>
  is the data with that field set.
\<close>

definition getPluginSettings :: "storage \<Rightarrow> settings \<times> storage" where
  "getPluginSettings st =
     (let storedSettings = STORAGE_get st in
      case zSettingsSchema_safeParse storedSettings of
        Some data \<Rightarrow>
          if closeTabsOnBulkSave data = None then
            let enriched = data\<lparr> closeTabsOnBulkSave := Some False \<rparr>
            in (enriched, STORAGE_set (settings_to_json enriched) st)
          else (data, st)
      | None \<Rightarrow>
          (case spreadable storedSettings of
             Some props \<Rightarrow>
               let mergedSettings = JObj (spread (settings_entries DEFAULT_SETTINGS) props)
               in (case zSettingsSchema_safeParse (Some mergedSettings) of
                     Some data \<Rightarrow> (data, STORAGE_set mergedSettings st)
                   | None \<Rightarrow> (DEFAULT_SETTINGS, st))
           | None \<Rightarrow> (DEFAULT_SETTINGS, st)))"





section \<open>The settings hook and the subscription\<close>

text \<open>
  A change notification: for every changed key, the old and the new value. A key that
  was removed has no new value.
\<close>

record storage_change =
  oldValue :: "json option"
  newValue :: "json option"

type_synonym changes = "(string \<times> storage_change) list"

text \<open>The state of \<open>usePluginSettings\<close>: the snapshot and the initialisation flag.\<close>

record hook =
  settings :: settings
  isInit :: bool

definition usePluginSettings_initial :: hook where
  "usePluginSettings_initial = \<lparr> settings = DEFAULT_SETTINGS, isInit = False \<rparr>"

text \<open>The effect run on mount: the first read, when it resolves, becomes the snapshot.\<close>

definition usePluginSettings_effect :: "hook \<Rightarrow> storage \<Rightarrow> hook \<times> storage" where
  "usePluginSettings_effect h st =
     (if \<not> isInit h then
        let (s, st') = getPluginSettings st
        in (h\<lparr> settings := s, isInit := True \<rparr>, st')
      else (h, st))"

text \<open>The listener \<open>onChange\<close> that the hook registers on \<open>STORAGE.onChanged\<close>.\<close>

definition usePluginSettings_onChange :: "changes \<Rightarrow> hook \<Rightarrow> hook" where
  "usePluginSettings_onChange chs h =
     (case map_of chs ''settings'' of
        None \<Rightarrow> h
      | Some c \<Rightarrow>
          (case zSettingsSchema_safeParse (newValue c) of
             Some data \<Rightarrow> h\<lparr> settings := data \<rparr>
           | None \<Rightarrow> h))"

text \<open>\<open>setSettings\<close>: the updater is applied to the snapshot the hook holds.\<close>

definition setSettings :: "(settings \<Rightarrow> settings) \<Rightarrow> hook \<Rightarrow> storage \<Rightarrow> storage" where
  "setSettings s h st = (let newVal = s (settings h) in STORAGE_set (settings_to_json newVal) st)"

text \<open>
  The listener that \<open>subscribeToSettingsChanges callback\<close> registers. The callback acts on
  the subscriber's own state, of any type.
\<close>

definition subscribeToSettingsChanges :: "(settings \<Rightarrow> 's \<Rightarrow> 's) \<Rightarrow> changes \<Rightarrow> 's \<Rightarrow> 's" where
  "subscribeToSettingsChanges callback chs =
     (case map_of chs ''settings'' of
        None \<Rightarrow> (\<lambda>x. x)
      | Some c \<Rightarrow>
          (case zSettingsSchema_safeParse (newValue c) of
             Some data \<Rightarrow> callback data
           | None \<Rightarrow> callback DEFAULT_SETTINGS))"

section \<open>Bulk save\<close>

datatype save_type = All_tabs | Window_tabs

record bulk_save_status =
  isActive :: bool
  progress :: rat
  total :: nat
  completed :: nat
  errors :: "string list"
  saveType :: "save_type option"

text \<open>The fields of \<open>chrome.tabs.Tab\<close> that the page uses; each may be undefined.\<close>

record tab =
  id_tab :: "int option"
  url :: "string option"
  title :: "string option"

text \<open>
  How one call of \<open>createBookmark\<close> ends: through its \<open>onSuccess\<close> callback, through its
  \<open>onError\<close> callback with the error's message, or by throwing: an \<open>Error\<close> with a
  message, or any other value.
\<close>

datatype attempt = OnSuccess | OnError string | Thrown "string option"

text \<open>The calls of \<open>chrome.tabs.remove\<close>: with an array of identifiers, or with one.\<close>

datatype tabs_remove = RemoveMany "int list" | RemoveOne int

text \<open>
  The page: its state variables \<open>bulkSaveStatus\<close>, \<open>error\<close> and \<open>closeTabs\<close>, and what it has
  done so far: every value it gave to \<open>bulkSaveStatus\<close>, every tab removal it asked of the
  browser, and whether it has scheduled \<open>window.close\<close>.
\<close>

record page =
  bulkSaveStatus :: bulk_save_status
  error :: "string option"
  closeTabs :: bool
  snapshots :: "bulk_save_status list"
  removals :: "tabs_remove list"
  windowClose :: bool

definition setBulkSaveStatus :: "(bulk_save_status \<Rightarrow> bulk_save_status) \<Rightarrow> page \<Rightarrow> page" where
  "setBulkSaveStatus f p =
     (let s = f (bulkSaveStatus p) in p\<lparr> bulkSaveStatus := s, snapshots := snapshots p @ [s] \<rparr>)"

definition setError :: "string option \<Rightarrow> page \<Rightarrow> page" where
  "setError e p = p\<lparr> error := e \<rparr>"

text \<open>The local variables of one run of \<open>handleBulkSave\<close>.\<close>

record locals =
  completed_var :: nat
  errors_var :: "string list"
  savedTabIds :: "int list"

text \<open>\<open>tab.title || tab.url\<close> inside a template literal.\<close>

definition title_or_url :: "tab \<Rightarrow> string" where
  "title_or_url t =
     (case title t of
        Some s \<Rightarrow> if s \<noteq> [] then s else (case url t of Some u \<Rightarrow> u | None \<Rightarrow> ''undefined'')
      | None \<Rightarrow> (case url t of Some u \<Rightarrow> u | None \<Rightarrow> ''undefined''))"

text \<open>
  \<open>closeTabsHelper\<close>. \<open>lastError\<close> tells whether the browser reports an error for the
  batched removal; the removals of the fallback ignore their outcome.
\<close>

definition closeTabsHelper :: "bool \<Rightarrow> bool \<Rightarrow> int list \<Rightarrow> page \<Rightarrow> page" where
  "closeTabsHelper closeTabs_c lastError tabIds p =
     (if \<not> closeTabs_c \<or> length tabIds = 0 then p
      else
        let p1 = p\<lparr> removals := removals p @ [RemoveMany tabIds] \<rparr>
        in if lastError then p1\<lparr> removals := removals p1 @ map RemoveOne tabIds \<rparr> else p1)"

text \<open>
  The body of the loop for the tab at index \<open>i\<close>, \<open>n\<close> being \<open>tabsToSave.length\<close>.
  \<open>if (tab.id)\<close> holds for an identifier that is defined and not zero. When the call
  fails, the \<open>onError\<close> that the page gave to \<open>useMutation\<close> runs first and sets the page's
  \<open>error\<close>; then the \<open>onError\<close> given to this call runs.
\<close>

definition save_tab :: "attempt \<Rightarrow> nat \<Rightarrow> nat \<Rightarrow> tab \<Rightarrow> locals \<times> page \<Rightarrow> locals \<times> page" where
  "save_tab a n i t lp =
     (let (l, p) = lp in
      case a of
        OnSuccess \<Rightarrow>
          let l1 = l\<lparr> completed_var := completed_var l + 1 \<rparr>;
              l2 = (case id_tab t of
                      Some k \<Rightarrow> if k \<noteq> 0 then l1\<lparr> savedTabIds := savedTabIds l1 @ [k] \<rparr> else l1
                    | None \<Rightarrow> l1)
          in (l2, setBulkSaveStatus
                    (\<lambda>prev. prev\<lparr> progress := (of_nat (i + 1) / of_nat n) * 100,
                                   completed := completed_var l2 \<rparr>) p)
      | OnError message \<Rightarrow>
          let p0 = setError (Some (''Something went wrong: '' @ message)) p;
              errorMsg = title_or_url t @ '': '' @ message
          in (l\<lparr> errors_var := errors_var l @ [errorMsg] \<rparr>,
              setBulkSaveStatus
                (\<lambda>prev. prev\<lparr> progress := (of_nat (i + 1) / of_nat n) * 100,
                               errors := errors prev @ [errorMsg] \<rparr>) p0)
      | Thrown e \<Rightarrow>
          let errorMsg = title_or_url t @ '': '' @
                           (case e of Some message \<Rightarrow> message | None \<Rightarrow> ''Unknown error'')
          in (l\<lparr> errors_var := errors_var l @ [errorMsg] \<rparr>,
              setBulkSaveStatus (\<lambda>prev. prev\<lparr> errors := errors prev @ [errorMsg] \<rparr>) p))"

text \<open>
  The loop \<open>for (let i = 0; i < tabsToSave.length; i++)\<close>, from index \<open>i\<close> on, over the
  tabs not yet attempted. \<open>createBookmark i t\<close> is how the call made for the tab \<open>t\<close> at
  index \<open>i\<close> ends.
\<close>

fun save_loop ::
  "(nat \<Rightarrow> tab \<Rightarrow> attempt) \<Rightarrow> nat \<Rightarrow> nat \<Rightarrow> tab list \<Rightarrow> locals \<times> page \<Rightarrow> locals \<times> page" where
  "save_loop createBookmark n i [] lp = lp"
| "save_loop createBookmark n i (t # ts) lp =
     save_loop createBookmark n (Suc i) ts (save_tab (createBookmark i t) n i t lp)"

definition handleBulkSave ::
  "save_type \<Rightarrow> tab list \<Rightarrow> tab list \<Rightarrow> (nat \<Rightarrow> tab \<Rightarrow> attempt) \<Rightarrow> bool \<Rightarrow> page \<Rightarrow> page" where
  "handleBulkSave saveType_a allTabs currentWindowTabs createBookmark lastError p =
     (let tabsToSave = (if saveType_a = All_tabs then allTabs else currentWindowTabs) in
      if length tabsToSave = 0 then setError (Some ''No valid tabs found to save'') p
      else
        let p1 = setBulkSaveStatus
                   (\<lambda>_. \<lparr> isActive = True, progress = 0, total = length tabsToSave,
                          completed = 0, errors = [], saveType = Some saveType_a \<rparr>) p;
            (l, p2) = save_loop createBookmark (length tabsToSave) 0 tabsToSave
                        (\<lparr> completed_var = 0, errors_var = [], savedTabIds = [] \<rparr>, p1);
            p3 = (if length (savedTabIds l) > 0
                  then closeTabsHelper (closeTabs p) lastError (savedTabIds l) p2 else p2);
            p4 = setBulkSaveStatus (\<lambda>prev. prev\<lparr> isActive := False \<rparr>) p3;
            p5 = (if completed_var l = length tabsToSave then setError None p4
                  else if completed_var l > 0 then
                    setError (Some (''Saved '' @ string_of_nat (completed_var l) @ '' of ''
                                    @ string_of_nat (length tabsToSave)
                                    @ '' tabs. Some tabs failed to save.'')) p4
                  else setError (Some ''Failed to save any tabs.'') p4)
        in if closeTabs p then p5\<lparr> windowClose := True \<rparr> else p5)"

text \<open>The page as it is first rendered: the initial values of its state variables.\<close>

definition BulkSavePage_initial :: page where
  "BulkSavePage_initial =
     \<lparr> bulkSaveStatus = \<lparr> isActive = False, progress = 0, total = 0, completed = 0,
                           errors = [], saveType = None \<rparr>,
       error = None, closeTabs = False, snapshots = [], removals = [], windowClose = False \<rparr>"

text \<open>
  For the comparison with \<open>savedTabIds\<close>: the identifiers of the tabs whose call of
  \<open>createBookmark\<close> ended in \<open>onSuccess\<close>, in the order of the tabs, from index \<open>i\<close> on.
\<close>

fun succeeded_tab_ids :: "(nat \<Rightarrow> tab \<Rightarrow> attempt) \<Rightarrow> nat \<Rightarrow> tab list \<Rightarrow> int list" where
  "succeeded_tab_ids createBookmark i [] = []"
| "succeeded_tab_ids createBookmark i (t # ts) =
     (if createBookmark i t = OnSuccess
      then (case id_tab t of Some k \<Rightarrow> [k] | None \<Rightarrow> []) else [])
     @ succeeded_tab_ids createBookmark (Suc i) ts"

section \<open>Properties of the schema and of the store\<close>

lemma map_of_spread: "map_of (spread a b) = map_of a ++ map_of b"
  by (simp add: spread_def merge_conv')

lemma z_record_string_roundtrip:
  "z_record_string (Some (JObj (map (\<lambda>(k, v). (k, JStr v)) hs))) = Some hs"
  by (induction hs) (auto)

lemma entries_lookup:
  "map_of (settings_entries s) ''apiKey'' = Some (JStr (apiKey s))"
  "map_of (settings_entries s) ''apiKeyId'' = map_option JStr (apiKeyId s)"
  "map_of (settings_entries s) ''address'' = Some (JStr (address s))"
  "map_of (settings_entries s) ''autoSave'' = Some (JBool (autoSave s))"
  "map_of (settings_entries s) ''closeTabsOnBulkSave'' = map_option JBool (closeTabsOnBulkSave s)"
  "map_of (settings_entries s) ''theme'' = Some (JStr (theme_name (theme s)))"
  "map_of (settings_entries s) ''showCountBadge'' = Some (JBool (showCountBadge s))"
  "map_of (settings_entries s) ''useBadgeCache'' = Some (JBool (useBadgeCache s))"
  "map_of (settings_entries s) ''badgeCacheExpireMs'' = Some (JNum (badgeCacheExpireMs s))"
  "map_of (settings_entries s) ''customHeaders'' = Some (JObj (map (\<lambda>(k, v). (k, JStr v)) (customHeaders s)))"
  by (simp_all add: settings_entries_def opt_entry_def split: option.splits)


lemma safeParse_obj_iff:
  "zSettingsSchema_safeParse (Some (JObj kvs)) = Some s \<longleftrightarrow>
     z_string (map_of kvs ''apiKey'') = Some (apiKey s) \<and>
     z_optional z_string (map_of kvs ''apiKeyId'') = Some (apiKeyId s) \<and>
     z_default z_string ''https://cloud.karakeep.app'' (map_of kvs ''address'') = Some (address s) \<and>
     z_default z_boolean False (map_of kvs ''autoSave'') = Some (autoSave s) \<and>
     z_optional z_boolean (map_of kvs ''closeTabsOnBulkSave'') = Some (closeTabsOnBulkSave s) \<and>
     z_default z_enum_theme System (map_of kvs ''theme'') = Some (theme s) \<and>
     z_default z_boolean DEFAULT_SHOW_COUNT_BADGE (map_of kvs ''showCountBadge'') = Some (showCountBadge s) \<and>
     z_default z_boolean True (map_of kvs ''useBadgeCache'') = Some (useBadgeCache s) \<and>
     z_default z_number_min0 DEFAULT_BADGE_CACHE_EXPIRE_MS (map_of kvs ''badgeCacheExpireMs'') = Some (badgeCacheExpireMs s) \<and>
     z_default z_record_string [] (map_of kvs ''customHeaders'') = Some (customHeaders s)"
  by (cases s) (auto simp: bind_eq_Some_conv)


declare zSettingsSchema_safeParse.simps(1) [simp del]

lemma theme_roundtrip: "z_enum_theme (Some (JStr (theme_name t))) = Some t"
  by (cases t) simp_all

lemma safeParse_roundtrip:
  "0 \<le> badgeCacheExpireMs s \<Longrightarrow> zSettingsSchema_safeParse (Some (settings_to_json s)) = Some s"
  unfolding settings_to_json_def safeParse_obj_iff entries_lookup
  by (cases "apiKeyId s"; cases "closeTabsOnBulkSave s")
     (simp_all add: z_optional_def z_default_def z_record_string_roundtrip theme_roundtrip
        del: z_record_string.simps z_enum_theme.simps)

lemma safeParse_is_obj:
  "zSettingsSchema_safeParse v = Some s \<Longrightarrow> \<exists>kvs. v = Some (JObj kvs)"
  by (cases v rule: zSettingsSchema_safeParse.cases) simp_all

lemma z_number_min0_nonneg: "z_number_min0 v = Some x \<Longrightarrow> 0 \<le> x"
  by (cases v rule: z_number_min0.cases) (simp_all split: if_splits)

lemma safeParse_badge:
  assumes "zSettingsSchema_safeParse v = Some s"
  shows "0 \<le> badgeCacheExpireMs s"
proof -
  from assms obtain kvs where v: "v = Some (JObj kvs)"
    using safeParse_is_obj by blast
  with assms have
    "z_default z_number_min0 DEFAULT_BADGE_CACHE_EXPIRE_MS (map_of kvs ''badgeCacheExpireMs'')
       = Some (badgeCacheExpireMs s)"
    by (simp add: safeParse_obj_iff)
  then show ?thesis
    by (cases "map_of kvs ''badgeCacheExpireMs''")
       (auto simp: z_default_def DEFAULT_BADGE_CACHE_EXPIRE_MS_def dest: z_number_min0_nonneg)
qed

lemma defaultable_fields_eq:
  "defaultable_fields =
     [''apiKey'', ''address'', ''autoSave'', ''closeTabsOnBulkSave'', ''theme'',
      ''showCountBadge'', ''useBadgeCache'', ''badgeCacheExpireMs'', ''customHeaders'']"
  by (simp add: defaultable_fields_def settings_entries_def DEFAULT_SETTINGS_def opt_entry_def)

lemma fully_defaulted_iff: "fully_defaulted s \<longleftrightarrow> closeTabsOnBulkSave s \<noteq> None"
  by (simp add: fully_defaulted_def defaultable_fields_eq populated_def entries_lookup)

lemma merged_closeTabs:
  assumes "zSettingsSchema_safeParse (Some (JObj (spread (settings_entries DEFAULT_SETTINGS) props))) = Some d"
  shows "closeTabsOnBulkSave d \<noteq> None"
proof -
  have "map_of (spread (settings_entries DEFAULT_SETTINGS) props) ''closeTabsOnBulkSave'' \<noteq> None"
    by (simp add: map_of_spread entries_lookup DEFAULT_SETTINGS_def map_add_def split: option.splits)
  then obtain j where "map_of (spread (settings_entries DEFAULT_SETTINGS) props) ''closeTabsOnBulkSave'' = Some j"
    by blast
  moreover from assms have
    "z_optional z_boolean (map_of (spread (settings_entries DEFAULT_SETTINGS) props) ''closeTabsOnBulkSave'')
       = Some (closeTabsOnBulkSave d)"
    by (simp add: safeParse_obj_iff)
  ultimately show ?thesis
    by (cases "closeTabsOnBulkSave d") (auto simp: z_optional_def)
qed

lemma default_closeTabs: "closeTabsOnBulkSave DEFAULT_SETTINGS = Some False"
  by (simp add: DEFAULT_SETTINGS_def)

lemma read_fully_defaulted: "fully_defaulted (fst (getPluginSettings st))"
  by (auto simp: getPluginSettings_def Let_def fully_defaulted_iff default_closeTabs
        split: option.splits dest: merged_closeTabs)

lemma read_twice:
  assumes "getPluginSettings st = (s1, st1)"
  shows "getPluginSettings st1 = (s1, st1)"
proof (cases "zSettingsSchema_safeParse (stored st)")
  case (Some d)
  show ?thesis
  proof (cases "closeTabsOnBulkSave d")
    case None
    let ?e = "d\<lparr> closeTabsOnBulkSave := Some False \<rparr>"
    from Some None assms have s1: "s1 = ?e" and st1: "st1 = STORAGE_set (settings_to_json ?e) st"
      by (auto simp: getPluginSettings_def STORAGE_get_def Let_def)
    have "0 \<le> badgeCacheExpireMs ?e" using safeParse_badge [OF Some] by simp
    then have "zSettingsSchema_safeParse (stored st1) = Some ?e"
      by (simp add: st1 STORAGE_set_def safeParse_roundtrip)
    then show ?thesis
      by (simp add: getPluginSettings_def STORAGE_get_def s1)
  next
    case (Some b)
    with \<open>zSettingsSchema_safeParse (stored st) = Some d\<close> assms show ?thesis
      by (auto simp: getPluginSettings_def STORAGE_get_def)
  qed
next
  case None
  show ?thesis
  proof (cases "spreadable (stored st)")
    case N: None
    with None assms show ?thesis
      by (auto simp: getPluginSettings_def STORAGE_get_def)
  next
    case (Some props)
    let ?m = "JObj (spread (settings_entries DEFAULT_SETTINGS) props)"
    show ?thesis
    proof (cases "zSettingsSchema_safeParse (Some ?m)")
      case N: None
      with None Some assms show ?thesis
        by (auto simp: getPluginSettings_def STORAGE_get_def)
    next
      case S: (Some d)
      with None Some assms have s1: "s1 = d" and st1: "st1 = STORAGE_set ?m st"
        by (simp_all add: getPluginSettings_def STORAGE_get_def)
      from S have "closeTabsOnBulkSave d \<noteq> None" by (rule merged_closeTabs)
      with S show ?thesis
        by (auto simp: getPluginSettings_def STORAGE_get_def s1 st1 STORAGE_set_def)
    qed
  qed
qed



lemma safeParse_lacking:
  assumes "zSettingsSchema_safeParse (Some (JObj kvs)) = Some d"
  shows "closeTabsOnBulkSave d = None \<longleftrightarrow> map_of kvs ''closeTabsOnBulkSave'' = None"
proof -
  from assms have
    "z_optional z_boolean (map_of kvs ''closeTabsOnBulkSave'') = Some (closeTabsOnBulkSave d)"
    by (simp add: safeParse_obj_iff)
  then show ?thesis
    by (cases "map_of kvs ''closeTabsOnBulkSave''"; cases "closeTabsOnBulkSave d")
       (auto simp: z_optional_def)
qed

section \<open>Reading the settings\<close>

text \<open>
  Claim C3. Whatever the storage area holds, a second \<open>getPluginSettings\<close> right after a
  first one returns the same settings as the first, and leaves the storage area as the
  first one left it: it adds nothing to the log of writes and the stored value is the same.
\<close>

theorem read_idempotent:
  "fst (getPluginSettings (snd (getPluginSettings st))) = fst (getPluginSettings st) \<and>
   writes (snd (getPluginSettings (snd (getPluginSettings st)))) = writes (snd (getPluginSettings st)) \<and>
   stored (snd (getPluginSettings (snd (getPluginSettings st)))) = stored (snd (getPluginSettings st))"
  using read_twice [of st "fst (getPluginSettings st)" "snd (getPluginSettings st)"] by simp

text \<open>
  Claim C6. When the stored value is an object that validates against the schema and has
  no property \<open>closeTabsOnBulkSave\<close>, \<open>getPluginSettings\<close> returns the parsed data with
  \<open>closeTabsOnBulkSave\<close> set to \<open>false\<close>, writes exactly that record to the storage area, and
  the value read from the storage area afterwards is an object that has the property
  \<open>closeTabsOnBulkSave\<close>, with value \<open>false\<close>.
\<close>

theorem read_backfills_closeTabs:
  assumes "stored st = Some (JObj kvs)"
    and "zSettingsSchema_safeParse (stored st) = Some d"
    and "map_of kvs ''closeTabsOnBulkSave'' = None"
  shows "closeTabsOnBulkSave (fst (getPluginSettings st)) = Some False \<and>
         fst (getPluginSettings st) = d\<lparr> closeTabsOnBulkSave := Some False \<rparr> \<and>
         writes (snd (getPluginSettings st)) = writes st @ [settings_to_json (fst (getPluginSettings st))] \<and>
         (\<exists>kvs'. STORAGE_get (snd (getPluginSettings st)) = Some (JObj kvs') \<and>
                 map_of kvs' ''closeTabsOnBulkSave'' = Some (JBool False))"
proof -
  from assms have "closeTabsOnBulkSave d = None"
    using safeParse_lacking [of kvs d] by simp
  with assms(2) show ?thesis
    by (simp add: getPluginSettings_def STORAGE_get_def STORAGE_set_def Let_def
          settings_to_json_def entries_lookup)
qed

text \<open>An instance: a stored object that holds an API key only.\<close>

theorem read_backfills_closeTabs_witness:
  "zSettingsSchema_safeParse (stored \<lparr> stored = Some (JObj [(''apiKey'', JStr ''k'')]), writes = [] \<rparr>)
     = Some (DEFAULT_SETTINGS\<lparr> apiKey := ''k'', closeTabsOnBulkSave := None \<rparr>) \<and>
   map_of [(''apiKey'', JStr ''k'')] ''closeTabsOnBulkSave'' = None \<and>
   closeTabsOnBulkSave (fst (getPluginSettings \<lparr> stored = Some (JObj [(''apiKey'', JStr ''k'')]), writes = [] \<rparr>))
     = Some False \<and>
   (\<exists>kvs'. STORAGE_get (snd (getPluginSettings \<lparr> stored = Some (JObj [(''apiKey'', JStr ''k'')]), writes = [] \<rparr>))
              = Some (JObj kvs') \<and>
           map_of kvs' ''closeTabsOnBulkSave'' = Some (JBool False))"
proof -
  let ?st = "\<lparr> stored = Some (JObj [(''apiKey'', JStr ''k'')]), writes = [] \<rparr>"
  let ?d = "DEFAULT_SETTINGS\<lparr> apiKey := ''k'', closeTabsOnBulkSave := None \<rparr>"
  have h1: "stored ?st = Some (JObj [(''apiKey'', JStr ''k'')])" by simp
  have h2: "zSettingsSchema_safeParse (stored ?st) = Some ?d"
    by (simp add: zSettingsSchema_safeParse.simps z_optional_def z_default_def DEFAULT_SETTINGS_def)
  have h3: "map_of [(''apiKey'', JStr ''k'')] ''closeTabsOnBulkSave'' = None" by simp
  show ?thesis
    using read_backfills_closeTabs [OF h1 h2 h3] h2 h3 by blast
qed

lemma default_valid:
  "zSettingsSchema_safeParse (Some (settings_to_json DEFAULT_SETTINGS)) = Some DEFAULT_SETTINGS"
  by (rule safeParse_roundtrip) (simp add: DEFAULT_SETTINGS_def DEFAULT_BADGE_CACHE_EXPIRE_MS_def)


lemma read_cases:
  "(\<exists>d. zSettingsSchema_safeParse (stored st) = Some d \<and> closeTabsOnBulkSave d = None \<and>
        getPluginSettings st =
          (d\<lparr> closeTabsOnBulkSave := Some False \<rparr>,
           STORAGE_set (settings_to_json (d\<lparr> closeTabsOnBulkSave := Some False \<rparr>)) st)) \<or>
   (\<exists>d. zSettingsSchema_safeParse (stored st) = Some d \<and> closeTabsOnBulkSave d \<noteq> None \<and>
        getPluginSettings st = (d, st)) \<or>
   (\<exists>props d. zSettingsSchema_safeParse (stored st) = None \<and> spreadable (stored st) = Some props \<and>
        zSettingsSchema_safeParse (Some (JObj (spread (settings_entries DEFAULT_SETTINGS) props))) = Some d \<and>
        getPluginSettings st = (d, STORAGE_set (JObj (spread (settings_entries DEFAULT_SETTINGS) props)) st)) \<or>
   (zSettingsSchema_safeParse (stored st) = None \<and> getPluginSettings st = (DEFAULT_SETTINGS, st))"
  by (auto simp: getPluginSettings_def STORAGE_get_def Let_def split: option.splits)




text \<open>The storage calls that the browser refuses.\<close>

lemma read_writes_cases:
  "writes (snd (getPluginSettings st)) = writes st \<and> stored (snd (getPluginSettings st)) = stored st \<or>
   (\<exists>v. snd (getPluginSettings st) = STORAGE_set v st)"
  using read_cases [of st] by auto







section \<open>Change notifications\<close>

text \<open>
  Claim C10. When a change notification for the key \<open>settings\<close> carries a new value that
  does not validate against the schema, the listener of \<open>subscribeToSettingsChanges\<close> still
  calls the callback, with the default record, whose \<open>apiKey\<close> is the empty string; the
  listener of the hook leaves the hook as it was, previous snapshot included.
\<close>

theorem subscriber_gets_defaults_on_invalid:
  assumes "map_of chs ''settings'' = Some c"
    and "zSettingsSchema_safeParse (newValue c) = None"
  shows "subscribeToSettingsChanges callback chs = callback DEFAULT_SETTINGS \<and>
         apiKey DEFAULT_SETTINGS = [] \<and> fully_defaulted DEFAULT_SETTINGS \<and>
         usePluginSettings_onChange chs h = h"
  using assms
  by (simp add: subscribeToSettingsChanges_def usePluginSettings_onChange_def
        fully_defaulted_iff default_closeTabs) (simp add: DEFAULT_SETTINGS_def)

text \<open>
  An instance: the new value has a number as \<open>apiKey\<close>; the subscriber's callback collects
  what it is called with.
\<close>

theorem subscriber_gets_defaults_on_invalid_witness:
  "map_of [(''settings'', \<lparr> oldValue = None, newValue = Some (JObj [(''apiKey'', JNum 5)]) \<rparr>)] ''settings''
     = Some \<lparr> oldValue = None, newValue = Some (JObj [(''apiKey'', JNum 5)]) \<rparr> \<and>
   zSettingsSchema_safeParse (newValue \<lparr> oldValue = None, newValue = Some (JObj [(''apiKey'', JNum 5)]) \<rparr>) = None \<and>
   subscribeToSettingsChanges (#)
     [(''settings'', \<lparr> oldValue = None, newValue = Some (JObj [(''apiKey'', JNum 5)]) \<rparr>)] []
     = [DEFAULT_SETTINGS] \<and>
   usePluginSettings_onChange
     [(''settings'', \<lparr> oldValue = None, newValue = Some (JObj [(''apiKey'', JNum 5)]) \<rparr>)]
     \<lparr> settings = DEFAULT_SETTINGS\<lparr> apiKey := ''k'' \<rparr>, isInit = True \<rparr>
     = \<lparr> settings = DEFAULT_SETTINGS\<lparr> apiKey := ''k'' \<rparr>, isInit = True \<rparr>"
proof -
  let ?c = "\<lparr> oldValue = None, newValue = Some (JObj [(''apiKey'', JNum 5)]) \<rparr>"
  have h1: "map_of [(''settings'', ?c)] ''settings'' = Some ?c" by simp
  have h2: "zSettingsSchema_safeParse (newValue ?c) = None"
    by (simp add: zSettingsSchema_safeParse.simps)
  from subscriber_gets_defaults_on_invalid [OF h1 h2, of "(#)" "\<lparr> settings = DEFAULT_SETTINGS\<lparr> apiKey := ''k'' \<rparr>, isInit = True \<rparr>"]
  show ?thesis using h1 h2 by simp
qed

lemma populated_others:
  "list_all (\<lambda>k. populated k d) (removeAll ''closeTabsOnBulkSave'' defaultable_fields)"
  by (simp add: defaultable_fields_eq populated_def entries_lookup)

lemma populated_closeTabs:
  "populated ''closeTabsOnBulkSave'' d \<longleftrightarrow> closeTabsOnBulkSave d \<noteq> None"
  by (simp add: populated_def entries_lookup)

text \<open>
  Claim C1, as stated, fails for the readers that are fed by change notifications. A
  notification whose new value is a valid settings object without the property
  \<open>closeTabsOnBulkSave\<close> (the schema declares it optional, with no default) makes the
  hook's listener take a snapshot, and the subscriber's callback receive a record, in
  which that field is undefined.
\<close>

theorem listeners_observe_partial_record:
  "\<not> fully_defaulted
       (settings
          (usePluginSettings_onChange
             [(''settings'', \<lparr> oldValue = None, newValue = Some (JObj [(''apiKey'', JStr ''k'')]) \<rparr>)]
             \<lparr> settings = DEFAULT_SETTINGS, isInit = True \<rparr>)) \<and>
   \<not> list_all fully_defaulted
       (subscribeToSettingsChanges (#)
          [(''settings'', \<lparr> oldValue = None, newValue = Some (JObj [(''apiKey'', JStr ''k'')]) \<rparr>)]
          [])"
  by (simp add: usePluginSettings_onChange_def subscribeToSettingsChanges_def
        zSettingsSchema_safeParse.simps z_optional_def z_default_def fully_defaulted_iff)

text \<open>
  Claim C1, amended. \<open>getPluginSettings\<close> always returns a fully defaulted record. For a
  notification whose new value validates, the hook's listener and the subscriber's callback
  observe the parsed value as it is: every defaultable field other than
  \<open>closeTabsOnBulkSave\<close> is populated in it, and \<open>closeTabsOnBulkSave\<close> is populated exactly
  when the notified object has that property. For a notification whose new value does not
  validate, the hook keeps its snapshot and the subscriber's callback observes the default
  record, which is fully defaulted.
\<close>

theorem readers_populated:
  "fully_defaulted (fst (getPluginSettings st)) \<and>
   (map_of chs ''settings'' = Some c \<longrightarrow> newValue c = Some (JObj kvs) \<longrightarrow>
    zSettingsSchema_safeParse (newValue c) = Some d \<longrightarrow>
      settings (usePluginSettings_onChange chs h) = d \<and>
      subscribeToSettingsChanges callback chs = callback d \<and>
      list_all (\<lambda>k. populated k d) (removeAll ''closeTabsOnBulkSave'' defaultable_fields) \<and>
      (populated ''closeTabsOnBulkSave'' d \<longleftrightarrow> map_of kvs ''closeTabsOnBulkSave'' \<noteq> None)) \<and>
   (map_of chs ''settings'' = Some c \<longrightarrow> zSettingsSchema_safeParse (newValue c) = None \<longrightarrow>
      settings (usePluginSettings_onChange chs h) = settings h \<and>
      subscribeToSettingsChanges callback chs = callback DEFAULT_SETTINGS \<and>
      fully_defaulted DEFAULT_SETTINGS)"
proof (intro conjI impI)
  show "fully_defaulted (fst (getPluginSettings st))" by (rule read_fully_defaulted)
next
  assume a: "map_of chs ''settings'' = Some c" "newValue c = Some (JObj kvs)"
    "zSettingsSchema_safeParse (newValue c) = Some d"
  from a show "settings (usePluginSettings_onChange chs h) = d"
    by (simp add: usePluginSettings_onChange_def)
  from a show "subscribeToSettingsChanges callback chs = callback d"
    by (simp add: subscribeToSettingsChanges_def)
  show "list_all (\<lambda>k. populated k d) (removeAll ''closeTabsOnBulkSave'' defaultable_fields)"
    by (rule populated_others)
  from a show "populated ''closeTabsOnBulkSave'' d \<longleftrightarrow> map_of kvs ''closeTabsOnBulkSave'' \<noteq> None"
    using safeParse_lacking [of kvs d] by (simp add: populated_closeTabs)
next
  assume a: "map_of chs ''settings'' = Some c" "zSettingsSchema_safeParse (newValue c) = None"
  from a show "settings (usePluginSettings_onChange chs h) = settings h"
    by (simp add: usePluginSettings_onChange_def)
  from a show "subscribeToSettingsChanges callback chs = callback DEFAULT_SETTINGS"
    by (simp add: subscribeToSettingsChanges_def)
  show "fully_defaulted DEFAULT_SETTINGS"
    by (simp add: fully_defaulted_iff default_closeTabs)
qed

text \<open>
  Instances: a notification with an object that holds an API key only, and a
  notification of the removal of the key.
\<close>

theorem readers_populated_witness:
  "map_of [(''settings'', \<lparr> oldValue = None, newValue = Some (JObj [(''apiKey'', JStr ''k'')]) \<rparr>)] ''settings''
     = Some \<lparr> oldValue = None, newValue = Some (JObj [(''apiKey'', JStr ''k'')]) \<rparr> \<and>
   zSettingsSchema_safeParse (newValue \<lparr> oldValue = None, newValue = Some (JObj [(''apiKey'', JStr ''k'')]) \<rparr>)
     = Some (DEFAULT_SETTINGS\<lparr> apiKey := ''k'', closeTabsOnBulkSave := None \<rparr>) \<and>
   settings (usePluginSettings_onChange
      [(''settings'', \<lparr> oldValue = None, newValue = Some (JObj [(''apiKey'', JStr ''k'')]) \<rparr>)]
      usePluginSettings_initial)
     = DEFAULT_SETTINGS\<lparr> apiKey := ''k'', closeTabsOnBulkSave := None \<rparr> \<and>
   subscribeToSettingsChanges (#)
      [(''settings'', \<lparr> oldValue = None, newValue = Some (JObj [(''apiKey'', JStr ''k'')]) \<rparr>)] []
     = [DEFAULT_SETTINGS\<lparr> apiKey := ''k'', closeTabsOnBulkSave := None \<rparr>] \<and>
   \<not> populated ''closeTabsOnBulkSave'' (DEFAULT_SETTINGS\<lparr> apiKey := ''k'', closeTabsOnBulkSave := None \<rparr>) \<and>
   map_of [(''settings'', \<lparr> oldValue = None, newValue = None \<rparr>)] ''settings''
     = Some \<lparr> oldValue = None, newValue = None \<rparr> \<and>
   zSettingsSchema_safeParse (newValue \<lparr> oldValue = None, newValue = None \<rparr>) = None \<and>
   subscribeToSettingsChanges (#) [(''settings'', \<lparr> oldValue = None, newValue = None \<rparr>)] []
     = [DEFAULT_SETTINGS]"
proof -
  let ?c = "\<lparr> oldValue = None, newValue = Some (JObj [(''apiKey'', JStr ''k'')]) \<rparr>"
  let ?d = "DEFAULT_SETTINGS\<lparr> apiKey := ''k'', closeTabsOnBulkSave := None \<rparr>"
  let ?c' = "\<lparr> oldValue = None, newValue = None \<rparr>"
  have h1: "map_of [(''settings'', ?c)] ''settings'' = Some ?c" by simp
  have h2: "newValue ?c = Some (JObj [(''apiKey'', JStr ''k'')])" by simp
  have h3: "zSettingsSchema_safeParse (newValue ?c) = Some ?d"
    by (simp add: zSettingsSchema_safeParse.simps z_optional_def z_default_def DEFAULT_SETTINGS_def)
  have h4: "map_of [(''apiKey'', JStr ''k'')] ''closeTabsOnBulkSave'' = None" by simp
  have g1: "map_of [(''settings'', ?c')] ''settings'' = Some ?c'" by simp
  have g2: "zSettingsSchema_safeParse (newValue ?c') = None" by simp
  note r1 = readers_populated [of _ "[(''settings'', ?c)]" ?c "[(''apiKey'', JStr ''k'')]" ?d
              usePluginSettings_initial "(#)"]
  note r2 = readers_populated [of _ "[(''settings'', ?c')]" ?c' _ _ _ "(#)"]
  from r1 h1 h2 h3 have
    a: "settings (usePluginSettings_onChange [(''settings'', ?c)] usePluginSettings_initial) = ?d"
    and b: "subscribeToSettingsChanges (#) [(''settings'', ?c)] = (#) ?d"
    and c: "populated ''closeTabsOnBulkSave'' ?d \<longleftrightarrow>
              map_of [(''apiKey'', JStr ''k'')] ''closeTabsOnBulkSave'' \<noteq> None"
    by blast+
  from r2 g1 g2 have d: "subscribeToSettingsChanges (#) [(''settings'', ?c')] = (#) DEFAULT_SETTINGS"
    by blast
  from c h4 have c': "\<not> populated ''closeTabsOnBulkSave'' ?d" by simp
  show ?thesis
    using h1 h3 a c' g1 g2 by (simp add: b d)
qed

section \<open>Writing the settings\<close>

text \<open>
  Claim C2, as stated, fails: \<open>setSettings\<close> does not read the storage area, it applies the
  updater to the snapshot the hook holds. A hook that has just been mounted, whose first
  read has not resolved and which has received no notification, holds the default record;
  so with a valid record stored, the identity updater replaces the stored record by the
  default record.
\<close>

theorem write_before_first_read:
  "stored (setSettings id usePluginSettings_initial
             \<lparr> stored = Some (settings_to_json (DEFAULT_SETTINGS\<lparr> apiKey := ''k'' \<rparr>)), writes = [] \<rparr>)
     = Some (settings_to_json DEFAULT_SETTINGS) \<and>
   stored (setSettings id usePluginSettings_initial
             \<lparr> stored = Some (settings_to_json (DEFAULT_SETTINGS\<lparr> apiKey := ''k'' \<rparr>)), writes = [] \<rparr>)
     \<noteq> Some (settings_to_json (id (DEFAULT_SETTINGS\<lparr> apiKey := ''k'' \<rparr>)))"
  by (simp add: setSettings_def usePluginSettings_initial_def STORAGE_set_def
        settings_to_json_def settings_entries_def DEFAULT_SETTINGS_def)

text \<open>
  Claim C2, amended. \<open>setSettings updater\<close> writes the updater applied to the snapshot the
  hook holds at the time of the call, and nothing else. The hook is mounted with the
  default record as snapshot and not initialised. Three things act on the snapshot, in
  whatever order they happen. The effect run on mount, when the hook is not initialised,
  replaces the snapshot by what \<open>getPluginSettings\<close> returns and marks the hook initialised;
  on an initialised hook it does nothing. A notification whose new value validates
  replaces the snapshot by the parsed value, whether the hook is initialised or not. A
  notification whose new value does not validate, or one for other keys, leaves the
  snapshot as it is. No notification changes whether the hook is initialised.
\<close>

theorem write_applies_updater_to_snapshot:
  "stored (setSettings s h st) = Some (settings_to_json (s (settings h))) \<and>
   writes (setSettings s h st) = writes st @ [settings_to_json (s (settings h))] \<and>
   settings usePluginSettings_initial = DEFAULT_SETTINGS \<and>
   \<not> isInit usePluginSettings_initial \<and>
   (\<not> isInit h \<longrightarrow>
      settings (fst (usePluginSettings_effect h st)) = fst (getPluginSettings st) \<and>
      isInit (fst (usePluginSettings_effect h st))) \<and>
   (isInit h \<longrightarrow> usePluginSettings_effect h st = (h, st)) \<and>
   (map_of chs ''settings'' = Some c \<longrightarrow> zSettingsSchema_safeParse (newValue c) = Some d \<longrightarrow>
      settings (usePluginSettings_onChange chs h) = d) \<and>
   (map_of chs ''settings'' = Some c \<longrightarrow> zSettingsSchema_safeParse (newValue c) = None \<longrightarrow>
      settings (usePluginSettings_onChange chs h) = settings h) \<and>
   (map_of chs ''settings'' = None \<longrightarrow> settings (usePluginSettings_onChange chs h) = settings h) \<and>
   isInit (usePluginSettings_onChange chs h) = isInit h"
  by (simp add: setSettings_def STORAGE_set_def usePluginSettings_initial_def Let_def
        usePluginSettings_effect_def usePluginSettings_onChange_def
        split: prod.splits option.splits)

text \<open>
  Instances: the hook as mounted, with nothing stored; on it, a notification with a valid
  object, which replaces the default record although the first read has not resolved, one
  of the removal of the key, and one for no key at all; the effect on an initialised hook.
\<close>

theorem write_applies_updater_to_snapshot_witness:
  "\<not> isInit usePluginSettings_initial \<and>
   settings (fst (usePluginSettings_effect usePluginSettings_initial \<lparr> stored = None, writes = [] \<rparr>))
     = fst (getPluginSettings \<lparr> stored = None, writes = [] \<rparr>) \<and>
   stored (setSettings id usePluginSettings_initial \<lparr> stored = None, writes = [] \<rparr>)
     = Some (settings_to_json (id (settings usePluginSettings_initial))) \<and>
   map_of [(''settings'', \<lparr> oldValue = None, newValue = Some (JObj [(''apiKey'', JStr ''k'')]) \<rparr>)] ''settings''
     = Some \<lparr> oldValue = None, newValue = Some (JObj [(''apiKey'', JStr ''k'')]) \<rparr> \<and>
   zSettingsSchema_safeParse (newValue \<lparr> oldValue = None, newValue = Some (JObj [(''apiKey'', JStr ''k'')]) \<rparr>)
     = Some (DEFAULT_SETTINGS\<lparr> apiKey := ''k'', closeTabsOnBulkSave := None \<rparr>) \<and>
   settings (usePluginSettings_onChange
      [(''settings'', \<lparr> oldValue = None, newValue = Some (JObj [(''apiKey'', JStr ''k'')]) \<rparr>)]
      usePluginSettings_initial)
     = DEFAULT_SETTINGS\<lparr> apiKey := ''k'', closeTabsOnBulkSave := None \<rparr> \<and>
   \<not> isInit (usePluginSettings_onChange
      [(''settings'', \<lparr> oldValue = None, newValue = Some (JObj [(''apiKey'', JStr ''k'')]) \<rparr>)]
      usePluginSettings_initial) \<and>
   map_of [(''settings'', \<lparr> oldValue = None, newValue = None \<rparr>)] ''settings''
     = Some \<lparr> oldValue = None, newValue = None \<rparr> \<and>
   zSettingsSchema_safeParse (newValue \<lparr> oldValue = None, newValue = None \<rparr>) = None \<and>
   settings (usePluginSettings_onChange [(''settings'', \<lparr> oldValue = None, newValue = None \<rparr>)]
      usePluginSettings_initial)
     = settings usePluginSettings_initial \<and>
   map_of ([] :: changes) ''settings'' = None \<and>
   settings (usePluginSettings_onChange [] usePluginSettings_initial) = settings usePluginSettings_initial \<and>
   isInit \<lparr> settings = DEFAULT_SETTINGS, isInit = True \<rparr> \<and>
   usePluginSettings_effect \<lparr> settings = DEFAULT_SETTINGS, isInit = True \<rparr> \<lparr> stored = None, writes = [] \<rparr>
     = (\<lparr> settings = DEFAULT_SETTINGS, isInit = True \<rparr>, \<lparr> stored = None, writes = [] \<rparr>)"
proof -
  let ?c = "\<lparr> oldValue = None, newValue = Some (JObj [(''apiKey'', JStr ''k'')]) \<rparr>"
  let ?d = "DEFAULT_SETTINGS\<lparr> apiKey := ''k'', closeTabsOnBulkSave := None \<rparr>"
  let ?c' = "\<lparr> oldValue = None, newValue = None \<rparr>"
  let ?st = "\<lparr> stored = None, writes = [] \<rparr>"
  let ?h = "\<lparr> settings = DEFAULT_SETTINGS, isInit = True \<rparr>"
  have h1: "map_of [(''settings'', ?c)] ''settings'' = Some ?c" by simp
  have h2: "zSettingsSchema_safeParse (newValue ?c) = Some ?d"
    by (simp add: zSettingsSchema_safeParse.simps z_optional_def z_default_def DEFAULT_SETTINGS_def)
  have g1: "map_of [(''settings'', ?c')] ''settings'' = Some ?c'" by simp
  have g2: "zSettingsSchema_safeParse (newValue ?c') = None" by simp
  have e: "map_of ([] :: changes) ''settings'' = None" by simp
  have i: "isInit ?h" by simp
  note r1 = write_applies_updater_to_snapshot
              [of id usePluginSettings_initial ?st "[(''settings'', ?c)]" ?c ?d]
  note r2 = write_applies_updater_to_snapshot
              [of id usePluginSettings_initial ?st "[(''settings'', ?c')]" ?c' ?d]
  note r3 = write_applies_updater_to_snapshot
              [of id usePluginSettings_initial ?st "[]" ?c ?d]
  note r4 = write_applies_updater_to_snapshot [of id ?h ?st "[]" ?c ?d]
  from r1 have h0: "\<not> isInit usePluginSettings_initial" by blast
  from r1 h0 have n: "\<not> isInit (usePluginSettings_onChange [(''settings'', ?c)] usePluginSettings_initial)"
    by simp
  show ?thesis
    using r1 r2 r3 r4 h0 h1 h2 g1 g2 e i n by blast
qed

section \<open>Bulk save: one tab\<close>

lemma save_tab_other:
  "removals (snd (save_tab a n i t (l, p))) = removals p"
  "closeTabs (snd (save_tab a n i t (l, p))) = closeTabs p"
  "windowClose (snd (save_tab a n i t (l, p))) = windowClose p"
  by (simp_all add: save_tab_def setBulkSaveStatus_def setError_def Let_def split: attempt.splits option.splits)

lemma save_tab_snapshots:
  "snapshots (snd (save_tab a n i t (l, p))) = snapshots p @ [bulkSaveStatus (snd (save_tab a n i t (l, p)))]"
  by (simp add: save_tab_def setBulkSaveStatus_def setError_def Let_def split: attempt.splits option.splits)

lemma progress_step:
  "0 < n \<Longrightarrow> (of_nat i / of_nat n) * (100::rat) \<le> (of_nat (i + 1) / of_nat n) * 100"
  by (simp add: divide_right_mono)

lemma save_tab_progress:
  assumes "0 < n" and "progress (bulkSaveStatus p) \<le> (of_nat i / of_nat n) * 100"
  shows "progress (bulkSaveStatus p) \<le> progress (bulkSaveStatus (snd (save_tab a n i t (l, p))))"
    and "progress (bulkSaveStatus (snd (save_tab a n i t (l, p)))) \<le> (of_nat (Suc i) / of_nat n) * 100"
  using assms progress_step [of n i]
  by (auto simp: save_tab_def setBulkSaveStatus_def setError_def Let_def split: attempt.splits option.splits)

lemma save_tab_progress_reported:
  assumes "\<forall>e. a \<noteq> Thrown e"
  shows "progress (bulkSaveStatus (snd (save_tab a n i t (l, p)))) = (of_nat (Suc i) / of_nat n) * 100"
  using assms
  by (auto simp: save_tab_def setBulkSaveStatus_def setError_def Let_def split: attempt.splits option.splits)

lemma save_tab_saved:
  "savedTabIds (fst (save_tab a n i t (l, p))) =
     savedTabIds l @ (if a = OnSuccess then (case id_tab t of Some k \<Rightarrow> if k \<noteq> 0 then [k] else [] | None \<Rightarrow> []) else [])"
  by (simp add: save_tab_def setBulkSaveStatus_def setError_def Let_def split: attempt.splits option.splits)

lemma save_tab_completed_var:
  "completed_var (fst (save_tab a n i t (l, p))) = completed_var l + (if a = OnSuccess then 1 else 0)"
  by (simp add: save_tab_def setBulkSaveStatus_def setError_def Let_def split: attempt.splits option.splits)

lemma save_tab_counts:
  assumes "completed (bulkSaveStatus p) = completed_var l"
    and "completed (bulkSaveStatus p) + length (errors (bulkSaveStatus p)) = i"
  shows "completed (bulkSaveStatus (snd (save_tab a n i t (l, p)))) = completed_var (fst (save_tab a n i t (l, p)))"
    and "completed (bulkSaveStatus (snd (save_tab a n i t (l, p))))
           + length (errors (bulkSaveStatus (snd (save_tab a n i t (l, p))))) = Suc i"
    and "total (bulkSaveStatus (snd (save_tab a n i t (l, p)))) = total (bulkSaveStatus p)"
    and "isActive (bulkSaveStatus (snd (save_tab a n i t (l, p)))) = isActive (bulkSaveStatus p)"
  using assms
  by (auto simp: save_tab_def setBulkSaveStatus_def setError_def Let_def split: attempt.splits option.splits)

section \<open>Bulk save: the loop\<close>

lemma save_loop_other:
  "removals (snd (save_loop c n i ts (l, p))) = removals p \<and>
   closeTabs (snd (save_loop c n i ts (l, p))) = closeTabs p \<and>
   windowClose (snd (save_loop c n i ts (l, p))) = windowClose p"
proof (induction ts arbitrary: i l p)
  case Nil
  then show ?case by simp
next
  case (Cons t ts)
  obtain l' p' where s: "save_tab (c i t) n i t (l, p) = (l', p')" by force
  from save_tab_other [of "c i t" n i t l p] Cons [of "Suc i" l' p'] show ?case
    by (simp add: s)
qed

lemma save_loop_saved:
  assumes "\<forall>t \<in> set ts. id_tab t \<noteq> Some 0"
  shows "savedTabIds (fst (save_loop c n i ts (l, p))) = savedTabIds l @ succeeded_tab_ids c i ts"
  using assms
proof (induction ts arbitrary: i l p)
  case Nil
  then show ?case by simp
next
  case (Cons t ts)
  obtain l' p' where s: "save_tab (c i t) n i t (l, p) = (l', p')" by force
  from save_tab_saved [of "c i t" n i t l p] s Cons.prems
  have "savedTabIds l' = savedTabIds l @
          (if c i t = OnSuccess then (case id_tab t of Some k \<Rightarrow> [k] | None \<Rightarrow> []) else [])"
    by (auto split: option.splits)
  with Cons.IH [of "Suc i" l' p'] Cons.prems show ?case
    by (simp add: s)
qed

lemma save_loop_counts:
  assumes "completed (bulkSaveStatus p) = completed_var l"
    and "completed (bulkSaveStatus p) + length (errors (bulkSaveStatus p)) = i"
  shows "completed (bulkSaveStatus (snd (save_loop c n i ts (l, p))))
           + length (errors (bulkSaveStatus (snd (save_loop c n i ts (l, p))))) = i + length ts \<and>
         total (bulkSaveStatus (snd (save_loop c n i ts (l, p)))) = total (bulkSaveStatus p) \<and>
         isActive (bulkSaveStatus (snd (save_loop c n i ts (l, p)))) = isActive (bulkSaveStatus p)"
  using assms
proof (induction ts arbitrary: i l p)
  case Nil
  then show ?case by simp
next
  case (Cons t ts)
  obtain l' p' where s: "save_tab (c i t) n i t (l, p) = (l', p')" by force
  from save_tab_counts [OF Cons.prems, of "c i t" n t] s
  have "completed (bulkSaveStatus p') = completed_var l'"
    and "completed (bulkSaveStatus p') + length (errors (bulkSaveStatus p')) = Suc i"
    and "total (bulkSaveStatus p') = total (bulkSaveStatus p)"
    and "isActive (bulkSaveStatus p') = isActive (bulkSaveStatus p)"
    by simp_all
  with Cons.IH [of p' l' "Suc i"] show ?case
    by (simp add: s)
qed

lemma save_loop_snapshots:
  assumes "0 < n" and "progress (bulkSaveStatus p) \<le> (of_nat i / of_nat n) * 100"
  shows "\<exists>es. snapshots (snd (save_loop c n i ts (l, p))) = snapshots p @ es \<and>
              length es = length ts \<and>
              sorted (map progress es) \<and>
              (\<forall>e \<in> set es. progress (bulkSaveStatus p) \<le> progress e) \<and>
              bulkSaveStatus (snd (save_loop c n i ts (l, p))) = last (bulkSaveStatus p # es)"
  using assms
proof (induction ts arbitrary: i l p)
  case Nil
  then show ?case by simp
next
  case (Cons t ts)
  obtain l' p' where s: "save_tab (c i t) n i t (l, p) = (l', p')" by force
  from save_tab_progress [OF Cons.prems, of "c i t" t l] s
  have le: "progress (bulkSaveStatus p) \<le> progress (bulkSaveStatus p')"
    and up: "progress (bulkSaveStatus p') \<le> (of_nat (Suc i) / of_nat n) * 100"
    by simp_all
  from save_tab_snapshots [of "c i t" n i t l p] s
  have sn: "snapshots p' = snapshots p @ [bulkSaveStatus p']" by simp
  from Cons.IH [OF Cons.prems(1) up, of l'] obtain es where
    es: "snapshots (snd (save_loop c n (Suc i) ts (l', p'))) = snapshots p' @ es"
      "length es = length ts" "sorted (map progress es)"
      "\<forall>e \<in> set es. progress (bulkSaveStatus p') \<le> progress e"
      "bulkSaveStatus (snd (save_loop c n (Suc i) ts (l', p'))) = last (bulkSaveStatus p' # es)"
    by blast
  let ?es = "bulkSaveStatus p' # es"
  have "snapshots (snd (save_loop c n i (t # ts) (l, p))) = snapshots p @ ?es"
    using es(1) sn by (simp add: s)
  moreover have "length ?es = length (t # ts)" using es(2) by simp
  moreover have "sorted (map progress ?es)" using es(3,4) by simp
  moreover have "\<forall>e \<in> set ?es. progress (bulkSaveStatus p) \<le> progress e"
    using es(4) le by auto
  moreover have "bulkSaveStatus (snd (save_loop c n i (t # ts) (l, p))) = last (bulkSaveStatus p # ?es)"
    using es(5) by (simp add: s)
  ultimately show ?case by blast
qed

lemma save_loop_final_progress:
  assumes "ts \<noteq> []" and "\<forall>e. c (i + length ts - 1) (last ts) \<noteq> Thrown e"
  shows "progress (bulkSaveStatus (snd (save_loop c n i ts (l, p)))) = (of_nat (i + length ts) / of_nat n) * 100"
  using assms
proof (induction ts arbitrary: i l p)
  case Nil
  then show ?case by simp
next
  case (Cons t ts)
  obtain l' p' where s: "save_tab (c i t) n i t (l, p) = (l', p')" by force
  show ?case
  proof (cases "ts = []")
    case True
    with Cons.prems save_tab_progress_reported [of "c i t" n i t l p] show ?thesis
      by simp
  next
    case False
    with Cons.prems have "\<forall>e. c (Suc i + length ts - 1) (last ts) \<noteq> Thrown e" by simp
    from Cons.IH [OF False this, of l' p'] show ?thesis by (simp add: s)
  qed
qed

section \<open>Bulk save: the run\<close>

lemma closeTabsHelper_other:
  "snapshots (closeTabsHelper ct le ids p) = snapshots p"
  "bulkSaveStatus (closeTabsHelper ct le ids p) = bulkSaveStatus p"
  by (simp_all add: closeTabsHelper_def Let_def)

lemma closeTabsHelper_removals:
  "removals (closeTabsHelper ct le ids p) =
     removals p @ (if ct \<and> ids \<noteq> [] then RemoveMany ids # (if le then map RemoveOne ids else []) else [])"
  by (simp add: closeTabsHelper_def Let_def)

lemma handleBulkSave_run:
  assumes "tabs = (if saveType_a = All_tabs then allTabs else currentWindowTabs)" and "tabs \<noteq> []"
    and "save_loop c (length tabs) 0 tabs
           (\<lparr> completed_var = 0, errors_var = [], savedTabIds = [] \<rparr>,
            setBulkSaveStatus
              (\<lambda>_. \<lparr> isActive = True, progress = 0, total = length tabs,
                     completed = 0, errors = [], saveType = Some saveType_a \<rparr>) p) = (l, p2)"
  shows "snapshots (handleBulkSave saveType_a allTabs currentWindowTabs c lastError p)
           = snapshots p2 @ [(bulkSaveStatus p2)\<lparr> isActive := False \<rparr>]"
    and "bulkSaveStatus (handleBulkSave saveType_a allTabs currentWindowTabs c lastError p)
           = (bulkSaveStatus p2)\<lparr> isActive := False \<rparr>"
    and "removals (handleBulkSave saveType_a allTabs currentWindowTabs c lastError p)
           = removals (closeTabsHelper (closeTabs p) lastError (savedTabIds l) p2)"
  using assms
  by (auto simp: handleBulkSave_def Let_def setBulkSaveStatus_def setError_def
        closeTabsHelper_other closeTabsHelper_def)

lemma sorted_snoc_last:
  fixes f :: "'a \<Rightarrow> rat"
  assumes "sorted (map f (x # es))" and "f y = f (last (x # es))"
  shows "sorted (map f (x # es @ [y]))"
proof -
  have "\<forall>e \<in> set (x # es). f e \<le> f (last (x # es))"
    using assms(1)
  proof (induction es arbitrary: x)
    case Nil
    then show ?case by simp
  next
    case (Cons a es)
    then show ?case by auto
  qed
  with assms have "sorted (map f (x # es) @ [f y])"
    unfolding sorted_append by auto
  then show ?thesis by simp
qed

lemma succeeded_subset:
  "set (succeeded_tab_ids c i ts) \<subseteq> set (List.map_filter id_tab ts)"
proof (induction ts arbitrary: i)
  case Nil
  then show ?case by simp
next
  case (Cons t ts)
  from Cons [of "Suc i"] show ?case
    by (cases "id_tab t"; cases "c i t = OnSuccess") auto
qed

lemma id_in_map_filter:
  "j < length ts \<Longrightarrow> id_tab (ts ! j) = Some k \<Longrightarrow> k \<in> set (List.map_filter id_tab ts)"
proof (induction ts arbitrary: j)
  case Nil
  then show ?case by simp
next
  case (Cons t ts)
  then show ?case
    by (cases j; cases "id_tab t") auto
qed

lemma succeeded_set:
  "set (succeeded_tab_ids c i ts) =
     {k. \<exists>j<length ts. c (i + j) (ts ! j) = OnSuccess \<and> id_tab (ts ! j) = Some k}"
proof (induction ts arbitrary: i)
  case Nil
  then show ?case by simp
next
  case (Cons t ts)
  have "{k. \<exists>j<length (t # ts). c (i + j) ((t # ts) ! j) = OnSuccess \<and> id_tab ((t # ts) ! j) = Some k}
        = {k. c i t = OnSuccess \<and> id_tab t = Some k}
          \<union> {k. \<exists>j<length ts. c (Suc i + j) (ts ! j) = OnSuccess \<and> id_tab (ts ! j) = Some k}"
    by (auto simp: less_Suc_eq_0_disj)
  with Cons [of "Suc i"] show ?case
    by (cases "id_tab t"; cases "c i t = OnSuccess") auto
qed

lemma failed_id_not_closed:
  assumes "distinct (List.map_filter id_tab ts)" and "j < length ts"
    and "c (i + j) (ts ! j) \<noteq> OnSuccess" and "id_tab (ts ! j) = Some k"
  shows "k \<notin> set (succeeded_tab_ids c i ts)"
  using assms
proof (induction ts arbitrary: i j)
  case Nil
  then show ?case by simp
next
  case (Cons t ts)
  show ?case
  proof (cases j)
    case 0
    with Cons.prems have "id_tab t = Some k" "c i t \<noteq> OnSuccess" by simp_all
    moreover from this Cons.prems(1) have "k \<notin> set (List.map_filter id_tab ts)"
      by simp
    ultimately show ?thesis
      using succeeded_subset [of c "Suc i" ts] by auto
  next
    case (Suc j')
    with Cons.prems have j': "j' < length ts" "c (Suc i + j') (ts ! j') \<noteq> OnSuccess"
      "id_tab (ts ! j') = Some k"
      by simp_all
    from Cons.prems(1) have d: "distinct (List.map_filter id_tab ts)"
      by (cases "id_tab t") simp_all
    from Cons.IH [OF d j'] have rest: "k \<notin> set (succeeded_tab_ids c (Suc i) ts)" .
    from id_in_map_filter [OF j'(1,3)] Cons.prems(1) have "id_tab t \<noteq> Some k"
      by auto
    with rest show ?thesis
      by (cases "id_tab t"; cases "c i t = OnSuccess") auto
  qed
qed


text \<open>
  What the loop does guarantee. In a run over a non-empty list of tabs, the values given to
  \<open>bulkSaveStatus\<close> are the initial snapshot, one snapshot per tab and the final snapshot;
  their \<open>progress\<close> values never decrease, whatever the outcome of each call of
  \<open>createBookmark\<close>, and the final one is 100 when the call for the last tab reports its
  outcome through \<open>onSuccess\<close> or \<open>onError\<close>. Progress is computed here with exact division;
  the browser's floating-point division and multiplication are monotone and give exactly 1
  for \<open>n / n\<close> and 100 for \<open>1 * 100\<close>.
\<close>

lemma progress_monotone:
  assumes "tabs = (if saveType_a = All_tabs then allTabs else currentWindowTabs)"
    and "tabs \<noteq> []"
  shows "\<exists>emitted.
           snapshots (handleBulkSave saveType_a allTabs currentWindowTabs createBookmark lastError p)
             = snapshots p @ emitted \<and>
           length emitted = length tabs + 2 \<and>
           sorted (map progress emitted) \<and>
           last emitted = bulkSaveStatus (handleBulkSave saveType_a allTabs currentWindowTabs createBookmark lastError p) \<and>
           ((\<forall>e. createBookmark (length tabs - 1) (last tabs) \<noteq> Thrown e) \<longrightarrow>
              progress (last emitted) = 100)"
proof -
  let ?init = "\<lparr> isActive = True, progress = 0, total = length tabs,
                 completed = 0, errors = [], saveType = Some saveType_a \<rparr>"
  let ?l0 = "\<lparr> completed_var = 0, errors_var = [], savedTabIds = [] \<rparr>"
  let ?p1 = "setBulkSaveStatus (\<lambda>_. ?init) p"
  let ?n = "length tabs"
  obtain l p2 where loop: "save_loop createBookmark ?n 0 tabs (?l0, ?p1) = (l, p2)" by force
  note run = handleBulkSave_run [OF assms(1,2) loop, of lastError]
  have n: "0 < ?n" using assms(2) by simp
  have p1: "snapshots ?p1 = snapshots p @ [?init]" "bulkSaveStatus ?p1 = ?init"
    by (simp_all add: setBulkSaveStatus_def Let_def)
  have "progress (bulkSaveStatus ?p1) \<le> (of_nat 0 / of_nat ?n) * 100"
    by (simp add: p1)
  from save_loop_snapshots [OF n this, of createBookmark tabs ?l0] loop p1 obtain es where
    es: "snapshots p2 = snapshots p @ ?init # es" "length es = length tabs"
      "sorted (map progress es)" "\<forall>e \<in> set es. 0 \<le> progress e"
      "bulkSaveStatus p2 = last (?init # es)"
    by auto
  have fin: "progress (bulkSaveStatus p2) = 100"
    if "\<forall>e. createBookmark (length tabs - 1) (last tabs) \<noteq> Thrown e"
    using save_loop_final_progress [OF assms(2), of createBookmark 0 ?n ?l0 ?p1] that loop n
    by simp
  let ?final = "(bulkSaveStatus p2)\<lparr> isActive := False \<rparr>"
  let ?emitted = "?init # es @ [?final]"
  have "sorted (map progress (?init # es))" using es(3,4) by simp
  then have "sorted (map progress ?emitted)"
    by (rule sorted_snoc_last) (simp add: es(5))
  moreover have "snapshots (handleBulkSave saveType_a allTabs currentWindowTabs createBookmark lastError p)
                   = snapshots p @ ?emitted"
    using run(1) es(1) by simp
  moreover have "length ?emitted = length tabs + 2" using es(2) by simp
  moreover have "(\<forall>e. createBookmark (length tabs - 1) (last tabs) \<noteq> Thrown e) \<longrightarrow>
                   progress (last ?emitted) = 100"
    using fin by simp
  moreover have "last ?emitted = bulkSaveStatus (handleBulkSave saveType_a allTabs currentWindowTabs createBookmark lastError p)"
    using run(2) by simp
  ultimately show ?thesis by blast
qed

text \<open>The run over three tabs of which the second fails, and the progress values it emits.\<close>

lemma progress_monotone_example:
  "[\<lparr> id_tab = Some 11, url = Some ''https://a.example/'', title = Some ''A-title'' \<rparr>,
    \<lparr> id_tab = Some 12, url = Some ''https://b.example/'', title = Some ''B-title'' \<rparr>,
    \<lparr> id_tab = Some 13, url = Some ''https://c.example/'', title = None \<rparr>] \<noteq> [] \<and>
   (\<exists>emitted.
      snapshots (handleBulkSave All_tabs
        [\<lparr> id_tab = Some 11, url = Some ''https://a.example/'', title = Some ''A-title'' \<rparr>,
         \<lparr> id_tab = Some 12, url = Some ''https://b.example/'', title = Some ''B-title'' \<rparr>,
         \<lparr> id_tab = Some 13, url = Some ''https://c.example/'', title = None \<rparr>] []
        (\<lambda>i t. if i = 1 then OnError ''timeout'' else OnSuccess) False BulkSavePage_initial)
        = snapshots BulkSavePage_initial @ emitted \<and>
      length emitted = 5 \<and> sorted (map progress emitted) \<and> progress (last emitted) = 100)"
proof -
  let ?tabs = "[\<lparr> id_tab = Some 11, url = Some ''https://a.example/'', title = Some ''A-title'' \<rparr>,
    \<lparr> id_tab = Some 12, url = Some ''https://b.example/'', title = Some ''B-title'' \<rparr>,
    \<lparr> id_tab = Some 13, url = Some ''https://c.example/'', title = None \<rparr>]"
  let ?c = "\<lambda>(i::nat) (t::tab). if i = 1 then OnError ''timeout'' else OnSuccess"
  have h1: "?tabs = (if All_tabs = All_tabs then ?tabs else [])" by simp
  have h2: "?tabs \<noteq> []" by simp
  have h3: "\<forall>e. ?c (length ?tabs - 1) (last ?tabs) \<noteq> Thrown e" by simp
  note r = progress_monotone [of ?tabs All_tabs ?tabs "[]" ?c False BulkSavePage_initial]
  from r [OF h1 h2] h2 h3 show ?thesis by auto
qed

lemma partial_failure_progress:
  "map progress (snapshots (handleBulkSave All_tabs
      [\<lparr> id_tab = Some 11, url = Some ''https://a.example/'', title = Some ''A-title'' \<rparr>,
       \<lparr> id_tab = Some 12, url = Some ''https://b.example/'', title = Some ''B-title'' \<rparr>,
       \<lparr> id_tab = Some 13, url = Some ''https://c.example/'', title = None \<rparr>] []
      (\<lambda>i t. if i = 1 then OnError ''timeout'' else OnSuccess) False BulkSavePage_initial))
   = [0, 100 / 3, 200 / 3, 100, 100]"
  by (simp add: handleBulkSave_def save_tab_def setBulkSaveStatus_def setError_def
        closeTabsHelper_def BulkSavePage_initial_def Let_def)

text \<open>
  Claim C7. In a run over a non-empty list of tabs, whatever the outcome of each call of
  \<open>createBookmark\<close>, the final \<open>bulkSaveStatus\<close>, which is the last snapshot emitted and is
  not active, has \<open>completed + length errors = total\<close>, and \<open>total\<close> is the number of tabs.
\<close>

theorem conservation:
  assumes "tabs = (if saveType_a = All_tabs then allTabs else currentWindowTabs)"
    and "tabs \<noteq> []"
  shows "completed (bulkSaveStatus (handleBulkSave saveType_a allTabs currentWindowTabs createBookmark lastError p))
           + length (errors (bulkSaveStatus (handleBulkSave saveType_a allTabs currentWindowTabs createBookmark lastError p)))
           = total (bulkSaveStatus (handleBulkSave saveType_a allTabs currentWindowTabs createBookmark lastError p)) \<and>
         total (bulkSaveStatus (handleBulkSave saveType_a allTabs currentWindowTabs createBookmark lastError p))
           = length tabs \<and>
         \<not> isActive (bulkSaveStatus (handleBulkSave saveType_a allTabs currentWindowTabs createBookmark lastError p)) \<and>
         last (snapshots (handleBulkSave saveType_a allTabs currentWindowTabs createBookmark lastError p))
           = bulkSaveStatus (handleBulkSave saveType_a allTabs currentWindowTabs createBookmark lastError p)"
proof -
  let ?init = "\<lparr> isActive = True, progress = 0, total = length tabs,
                 completed = 0, errors = [], saveType = Some saveType_a \<rparr>"
  let ?l0 = "\<lparr> completed_var = 0, errors_var = [], savedTabIds = [] \<rparr>"
  let ?p1 = "setBulkSaveStatus (\<lambda>_. ?init) p"
  obtain l p2 where loop: "save_loop createBookmark (length tabs) 0 tabs (?l0, ?p1) = (l, p2)" by force
  note run = handleBulkSave_run [OF assms(1,2) loop, of lastError]
  have p1: "bulkSaveStatus ?p1 = ?init" by (simp add: setBulkSaveStatus_def Let_def)
  have a: "completed (bulkSaveStatus ?p1) = completed_var ?l0" by (simp add: p1)
  have b: "completed (bulkSaveStatus ?p1) + length (errors (bulkSaveStatus ?p1)) = 0" by (simp add: p1)
  from save_loop_counts [OF a b, of createBookmark "length tabs" tabs] loop p1
  have "completed (bulkSaveStatus p2) + length (errors (bulkSaveStatus p2)) = length tabs"
    and "total (bulkSaveStatus p2) = length tabs"
    by simp_all
  then show ?thesis by (simp add: run)
qed

text \<open>An instance: three tabs; one is saved, one call throws, one call reports an error.\<close>

theorem conservation_witness:
  "[\<lparr> id_tab = Some 11, url = Some ''https://a.example/'', title = Some ''A-title'' \<rparr>,
    \<lparr> id_tab = Some 12, url = Some ''https://b.example/'', title = Some ''B-title'' \<rparr>,
    \<lparr> id_tab = Some 13, url = Some ''https://c.example/'', title = None \<rparr>] \<noteq> [] \<and>
   completed (bulkSaveStatus (handleBulkSave All_tabs
        [\<lparr> id_tab = Some 11, url = Some ''https://a.example/'', title = Some ''A-title'' \<rparr>,
         \<lparr> id_tab = Some 12, url = Some ''https://b.example/'', title = Some ''B-title'' \<rparr>,
         \<lparr> id_tab = Some 13, url = Some ''https://c.example/'', title = None \<rparr>] []
        (\<lambda>i t. if i = 1 then Thrown None else if i = 2 then OnError ''timeout'' else OnSuccess)
        False BulkSavePage_initial))
   + length (errors (bulkSaveStatus (handleBulkSave All_tabs
        [\<lparr> id_tab = Some 11, url = Some ''https://a.example/'', title = Some ''A-title'' \<rparr>,
         \<lparr> id_tab = Some 12, url = Some ''https://b.example/'', title = Some ''B-title'' \<rparr>,
         \<lparr> id_tab = Some 13, url = Some ''https://c.example/'', title = None \<rparr>] []
        (\<lambda>i t. if i = 1 then Thrown None else if i = 2 then OnError ''timeout'' else OnSuccess)
        False BulkSavePage_initial)))
   = 3"
proof -
  let ?tabs = "[\<lparr> id_tab = Some 11, url = Some ''https://a.example/'', title = Some ''A-title'' \<rparr>,
    \<lparr> id_tab = Some 12, url = Some ''https://b.example/'', title = Some ''B-title'' \<rparr>,
    \<lparr> id_tab = Some 13, url = Some ''https://c.example/'', title = None \<rparr>]"
  have h1: "?tabs = (if All_tabs = All_tabs then ?tabs else [])" by simp
  have h2: "?tabs \<noteq> []" by simp
  note r = conservation [of ?tabs All_tabs ?tabs "[]"
      "\<lambda>i t. if i = 1 then Thrown None else if i = 2 then OnError ''timeout'' else OnSuccess"
      False BulkSavePage_initial]
  from r [OF h1 h2] h2 show ?thesis by simp
qed

text \<open>
  Claim C8. With \<open>closeTabs\<close> set, and tabs whose identifiers are distinct and not zero (the
  browser numbers its tabs so), the removals asked of the browser during a run are: nothing
  when no saved tab has an identifier, and otherwise one batched removal of exactly the
  identifiers of the tabs whose \<open>createBookmark\<close> succeeded, followed by one removal per
  identifier when the browser reports an error for the batch. No identifier of a tab whose
  call did not succeed is among them, and when no call succeeded no removal is asked at all.
\<close>

theorem closure_scoped:
  assumes "tabs = (if saveType_a = All_tabs then allTabs else currentWindowTabs)"
    and "closeTabs p"
    and "\<forall>t \<in> set tabs. id_tab t \<noteq> Some 0"
    and "distinct (List.map_filter id_tab tabs)"
  shows "removals (handleBulkSave saveType_a allTabs currentWindowTabs createBookmark lastError p)
           = removals p @
             (if succeeded_tab_ids createBookmark 0 tabs = [] then []
              else RemoveMany (succeeded_tab_ids createBookmark 0 tabs)
                   # (if lastError then map RemoveOne (succeeded_tab_ids createBookmark 0 tabs) else [])) \<and>
         set (succeeded_tab_ids createBookmark 0 tabs)
           = {k. \<exists>j<length tabs. createBookmark j (tabs ! j) = OnSuccess \<and> id_tab (tabs ! j) = Some k} \<and>
         (\<forall>j<length tabs. createBookmark j (tabs ! j) \<noteq> OnSuccess \<longrightarrow>
            (\<forall>k. id_tab (tabs ! j) = Some k \<longrightarrow> k \<notin> set (succeeded_tab_ids createBookmark 0 tabs))) \<and>
         ((\<forall>j<length tabs. createBookmark j (tabs ! j) \<noteq> OnSuccess) \<longrightarrow>
            removals (handleBulkSave saveType_a allTabs currentWindowTabs createBookmark lastError p)
              = removals p)"
proof -
  let ?ids = "succeeded_tab_ids createBookmark 0 tabs"
  let ?run = "handleBulkSave saveType_a allTabs currentWindowTabs createBookmark lastError p"
  have set_ids: "set ?ids = {k. \<exists>j<length tabs. createBookmark j (tabs ! j) = OnSuccess \<and> id_tab (tabs ! j) = Some k}"
    using succeeded_set [of createBookmark 0 tabs] by simp
  have rem: "removals ?run = removals p @
               (if ?ids = [] then [] else RemoveMany ?ids # (if lastError then map RemoveOne ?ids else []))"
  proof (cases "tabs = []")
    case True
    with assms(1) show ?thesis
      by (auto simp: handleBulkSave_def setError_def)
  next
    case False
    let ?init = "\<lparr> isActive = True, progress = 0, total = length tabs,
                   completed = 0, errors = [], saveType = Some saveType_a \<rparr>"
    let ?l0 = "\<lparr> completed_var = 0, errors_var = [], savedTabIds = [] \<rparr>"
    let ?p1 = "setBulkSaveStatus (\<lambda>_. ?init) p"
    obtain l p2 where loop: "save_loop createBookmark (length tabs) 0 tabs (?l0, ?p1) = (l, p2)" by force
    note run = handleBulkSave_run [OF assms(1) False loop, of lastError]
    from save_loop_saved [OF assms(3), of createBookmark "length tabs" 0 ?l0 ?p1] loop
    have saved: "savedTabIds l = ?ids" by simp
    from save_loop_other [of createBookmark "length tabs" 0 tabs ?l0 ?p1] loop
    have "removals p2 = removals p" by (simp add: setBulkSaveStatus_def Let_def)
    with run(3) saved assms(2) show ?thesis
      by (simp add: closeTabsHelper_removals)
  qed
  have failed: "\<forall>j<length tabs. createBookmark j (tabs ! j) \<noteq> OnSuccess \<longrightarrow>
            (\<forall>k. id_tab (tabs ! j) = Some k \<longrightarrow> k \<notin> set ?ids)"
    using failed_id_not_closed [OF assms(4), of _ createBookmark 0] by simp
  have none: "removals ?run = removals p"
    if "\<forall>j<length tabs. createBookmark j (tabs ! j) \<noteq> OnSuccess"
  proof -
    from that set_ids have "set ?ids = {}" by auto
    then show ?thesis using rem by simp
  qed
  from rem set_ids failed none show ?thesis by blast
qed

text \<open>Instances: the first of two tabs is saved and the second fails; both fail.\<close>

theorem closure_scoped_witness:
  "closeTabs (BulkSavePage_initial\<lparr> closeTabs := True \<rparr>) \<and>
   distinct (List.map_filter id_tab
     [\<lparr> id_tab = Some 11, url = Some ''https://a.example/'', title = Some ''A-title'' \<rparr>,
      \<lparr> id_tab = Some 12, url = Some ''https://b.example/'', title = Some ''B-title'' \<rparr>]) \<and>
   removals (handleBulkSave All_tabs
     [\<lparr> id_tab = Some 11, url = Some ''https://a.example/'', title = Some ''A-title'' \<rparr>,
      \<lparr> id_tab = Some 12, url = Some ''https://b.example/'', title = Some ''B-title'' \<rparr>] []
     (\<lambda>i t. if i = 1 then OnError ''timeout'' else OnSuccess) False
     (BulkSavePage_initial\<lparr> closeTabs := True \<rparr>))
     = [RemoveMany [11]] \<and>
   12 \<notin> set (succeeded_tab_ids (\<lambda>i t. if i = 1 then OnError ''timeout'' else OnSuccess) 0
     [\<lparr> id_tab = Some 11, url = Some ''https://a.example/'', title = Some ''A-title'' \<rparr>,
      \<lparr> id_tab = Some 12, url = Some ''https://b.example/'', title = Some ''B-title'' \<rparr>]) \<and>
   removals (handleBulkSave All_tabs
     [\<lparr> id_tab = Some 11, url = Some ''https://a.example/'', title = Some ''A-title'' \<rparr>,
      \<lparr> id_tab = Some 12, url = Some ''https://b.example/'', title = Some ''B-title'' \<rparr>] []
     (\<lambda>i t. OnError ''timeout'') False
     (BulkSavePage_initial\<lparr> closeTabs := True \<rparr>))
     = []"
proof -
  let ?tabs = "[\<lparr> id_tab = Some 11, url = Some ''https://a.example/'', title = Some ''A-title'' \<rparr>,
      \<lparr> id_tab = Some 12, url = Some ''https://b.example/'', title = Some ''B-title'' \<rparr>]"
  let ?c = "\<lambda>(i::nat) (t::tab). if i = 1 then OnError ''timeout'' else OnSuccess"
  let ?f = "\<lambda>(i::nat) (t::tab). OnError ''timeout''"
  let ?p = "BulkSavePage_initial\<lparr> closeTabs := True \<rparr>"
  have h1: "?tabs = (if All_tabs = All_tabs then ?tabs else [])" by simp
  have h2: "closeTabs ?p" by simp
  have h3: "\<forall>t \<in> set ?tabs. id_tab t \<noteq> Some 0" by simp
  have h4: "distinct (List.map_filter id_tab ?tabs)" by simp
  note r = closure_scoped [of ?tabs All_tabs ?tabs "[]" ?p ?c False]
  note q = closure_scoped [of ?tabs All_tabs ?tabs "[]" ?p ?f False]
  have ids: "succeeded_tab_ids ?c 0 ?tabs = [11]" by simp
  have rp: "removals ?p = []" by (simp add: BulkSavePage_initial_def)
  from r [OF h1 h2 h3 h4] have
    a: "removals (handleBulkSave All_tabs ?tabs [] ?c False ?p)
          = removals ?p @ (if succeeded_tab_ids ?c 0 ?tabs = [] then []
              else RemoveMany (succeeded_tab_ids ?c 0 ?tabs)
                   # (if False then map RemoveOne (succeeded_tab_ids ?c 0 ?tabs) else []))"
    and b: "\<forall>j<length ?tabs. ?c j (?tabs ! j) \<noteq> OnSuccess \<longrightarrow>
            (\<forall>k. id_tab (?tabs ! j) = Some k \<longrightarrow> k \<notin> set (succeeded_tab_ids ?c 0 ?tabs))"
    by blast+
  from b have b': "12 \<notin> set (succeeded_tab_ids ?c 0 ?tabs)"
    by (simp add: ids)
  have allfail: "\<forall>j<length ?tabs. ?f j (?tabs ! j) \<noteq> OnSuccess" by simp
  from q [OF h1 h2 h3 h4] allfail
  have c: "removals (handleBulkSave All_tabs ?tabs [] ?f False ?p) = removals ?p"
    by blast
  from a have a': "removals (handleBulkSave All_tabs ?tabs [] ?c False ?p) = [RemoveMany [11]]"
    by (simp add: ids rp)
  from h2 h4 a' b' c rp show ?thesis by simp
qed

text \<open>
  Claim C9. \<open>handleBulkSave\<close> on an empty list of tabs, for either save type, only sets the
  page's error to \<open>No valid tabs found to save\<close>: \<open>bulkSaveStatus\<close> keeps its value, no
  snapshot is emitted and no removal is asked.
\<close>

theorem empty_run_rejected:
  "handleBulkSave All_tabs [] currentWindowTabs createBookmark lastError p
     = p\<lparr> error := Some ''No valid tabs found to save'' \<rparr> \<and>
   handleBulkSave Window_tabs allTabs [] createBookmark lastError p
     = p\<lparr> error := Some ''No valid tabs found to save'' \<rparr> \<and>
   bulkSaveStatus (p\<lparr> error := Some ''No valid tabs found to save'' \<rparr>) = bulkSaveStatus p \<and>
   snapshots (p\<lparr> error := Some ''No valid tabs found to save'' \<rparr>) = snapshots p \<and>
   removals (p\<lparr> error := Some ''No valid tabs found to save'' \<rparr>) = removals p"
  by (simp add: handleBulkSave_def setError_def)

text \<open>An instance: the page as first rendered, with no tab to save.\<close>

theorem empty_run_rejected_witness:
  "error (handleBulkSave All_tabs [] [] (\<lambda>i t. OnSuccess) False BulkSavePage_initial)
     = Some ''No valid tabs found to save'' \<and>
   snapshots (handleBulkSave All_tabs [] [] (\<lambda>i t. OnSuccess) False BulkSavePage_initial) = [] \<and>
   bulkSaveStatus (handleBulkSave All_tabs [] [] (\<lambda>i t. OnSuccess) False BulkSavePage_initial)
     = bulkSaveStatus BulkSavePage_initial"
  using empty_run_rejected [of "[]" "\<lambda>i t. OnSuccess" False BulkSavePage_initial "[]"]
  by (simp add: BulkSavePage_initial_def)

end
